theory Spec2Isabelle
  imports Main "HOL-Library.Sublist"
begin

section \<open>The campaign engine of server.js\<close>

text \<open>
  The server keeps its data in SQLite tables and talks to one WhatsApp client. The model
  below follows \<^verbatim>\<open>src/server.js\<close>: the tables are lists of rows in insertion (rowid)
  order, every SQL statement is a function on the tables, every route handler and the
  function \<^verbatim>\<open>sendBulkMessages\<close> is a function on the whole state. What the outside
  world decides (whether SQLite reports an error to a callback, whether the client is
  ready, whether a send is rejected, what the clock shows) is an explicit argument.
  Node runs the callbacks of the handlers one after the other, so a run of the server is
  a sequence of such steps; the iteration of the sending loop is a step of its own
  (\<open>attempt\<close>), because the loop suspends at every \<^verbatim>\<open>await\<close>.
\<close>

subsection \<open>JavaScript strings\<close>

text \<open>\<^verbatim>\<open>\D\<close> matches every character that is not one of 0..9.\<close>

definition digit :: "char \<Rightarrow> bool" where
  "digit c = (c \<in> set ''0123456789'')"

text \<open>\<^verbatim>\<open>s.includes(pat)\<close>: \<open>pat\<close> occurs somewhere in \<open>s\<close>.\<close>

fun includes_str :: "string \<Rightarrow> string \<Rightarrow> bool" where
  "includes_str [] pat = (pat = [])"
| "includes_str (c # cs) pat = (prefix pat (c # cs) \<or> includes_str cs pat)"

text \<open>
  \<^verbatim>\<open>let formattedPhone = msg.phone.replace(/\D/g, '');
  if (!formattedPhone.includes('@c.us')) { formattedPhone = formattedPhone + '@c.us'; }\<close>
  (lines 199-202, and again lines 642-645 and 672-675).
\<close>

definition formattedPhone :: "string \<Rightarrow> string" where
  "formattedPhone phone =
     (let f = filter digit phone
      in if \<not> includes_str f ''@c.us'' then f @ ''@c.us'' else f)"

text \<open>
  The replacement text of \<^verbatim>\<open>String.prototype.replace\<close> is not inserted as it is:
  \<^verbatim>\<open>$$\<close> stands for a dollar sign, \<^verbatim>\<open>$&\<close> for the matched text, \<^verbatim>\<open>$`\<close> for the
  text before the match and \<^verbatim>\<open>$'\<close> for the text after it. The patterns used here have
  no capture group, so \<^verbatim>\<open>$1\<close> .. \<^verbatim>\<open>$99\<close> and \<^verbatim>\<open>$<\<close> stay as they are.
\<close>

fun GetSubstitution :: "string \<Rightarrow> string \<Rightarrow> string \<Rightarrow> string \<Rightarrow> string" where
  "GetSubstitution matched pre post [] = []"
| "GetSubstitution matched pre post [c] = [c]"
| "GetSubstitution matched pre post (c # d # r) =
     (if c = CHR ''$'' then
        (if d = CHR ''$'' then CHR ''$'' # GetSubstitution matched pre post r
         else if d = CHR ''&'' then matched @ GetSubstitution matched pre post r
         else if d = CHR 0x60 then pre @ GetSubstitution matched pre post r
         else if d = CHR 0x27 then post @ GetSubstitution matched pre post r
         else c # GetSubstitution matched pre post (d # r))
      else c # GetSubstitution matched pre post (d # r))"

text \<open>
  \<^verbatim>\<open>s.replace(/pat/g, repl)\<close> for a pattern that matches the literal text \<open>pat\<close>:
  the matches are found from left to right and do not overlap; \<open>pre\<close> is the part
  of the subject already scanned, \<open>post\<close> the part that follows the match.
\<close>

function replace_g :: "string \<Rightarrow> string \<Rightarrow> string \<Rightarrow> string \<Rightarrow> string" where
  "replace_g pat repl pre [] = []"
| "replace_g pat repl pre (c # cs) =
     (if pat \<noteq> [] \<and> prefix pat (c # cs)
      then GetSubstitution pat pre (drop (length pat) (c # cs)) repl
           @ replace_g pat repl (pre @ pat) (drop (length pat) (c # cs))
      else c # replace_g pat repl (pre @ [c]) cs)"
  by pat_completeness auto
termination
  by (relation "measure (\<lambda>(pat, repl, pre, s). length s)") (auto simp: neq_Nil_conv)

text \<open>A replacement value that is \<^verbatim>\<open>null\<close> is converted to the text "null".\<close>

definition ToString :: "string option \<Rightarrow> string" where
  "ToString v = (case v of None \<Rightarrow> ''null'' | Some s \<Rightarrow> s)"

text \<open>A string is truthy when it is neither \<^verbatim>\<open>null\<close> nor empty.\<close>

definition truthy :: "string option \<Rightarrow> bool" where
  "truthy v = (case v of None \<Rightarrow> False | Some s \<Rightarrow> s \<noteq> [])"

subsection \<open>Tables\<close>

datatype campaign_status = Draft | Scheduled | Running | Completed | Paused

datatype message_status = Pending | Sent | Failed

record contact =
  contact_id :: nat
  contact_name :: "string option"
  contact_phone :: "string option"
  contact_email :: "string option"

record campaign =
  campaign_id :: nat
  campaign_name :: string
  campaign_message :: string
  media_url :: "string option"
  media_type :: "string option"
  campaign_status :: campaign_status
  scheduled_at :: "string option"
  completed_at :: "nat option"

record message =
  message_id :: nat
  message_campaign_id :: nat
  message_contact_id :: nat
  message_phone :: "string option"
  message_text :: string
  message_status :: message_status
  sent_at :: "nat option"
  message_error :: "string option"

text \<open>One call of \<^verbatim>\<open>client.sendMessage\<close>: the address, the content, the caption.\<close>

datatype content = Text string | Media string

record send_call =
  call_to :: string
  call_content :: content
  call_caption :: "string option"

text \<open>
  The state: the three tables, the AUTOINCREMENT counters of campaigns and messages, and
  the calls made to the client so far.
\<close>

record world =
  contacts :: "contact list"
  campaigns :: "campaign list"
  messages :: "message list"
  campaign_seq :: nat
  message_seq :: nat
  outbox :: "send_call list"

datatype response = Json_success | Json_created nat | Http_500 string

text \<open>A response with status 500 is the only way a handler refuses a request.\<close>

definition rejected :: "response \<Rightarrow> bool" where
  "rejected r = (case r of Http_500 e \<Rightarrow> True | _ \<Rightarrow> False)"

subsection \<open>Creating a campaign\<close>

text \<open>
  \<^verbatim>\<open>message.replace(/\{name\}/g, contact.name).replace(/\{phone\}/g, contact.phone)
         .replace(/\{email\}/g, contact.email)\<close> (lines 450-453).
\<close>

definition personalizedMessage :: "string \<Rightarrow> contact \<Rightarrow> string" where
  "personalizedMessage message c =
     replace_g ''{email}'' (ToString (contact_email c)) []
       (replace_g ''{phone}'' (ToString (contact_phone c)) []
         (replace_g ''{name}'' (ToString (contact_name c)) [] message))"

text \<open>
  The body of the request: the name, the template, the parsed list of contact ids, the
  schedule, and the file name and MIME type of the uploaded file, if there is one.
\<close>

record campaign_request =
  req_name :: string
  req_message :: string
  req_contacts :: "nat list"
  req_scheduled_at :: "string option"
  req_file :: "(string \<times> string) option"

text \<open>\<^verbatim>\<open>SELECT * FROM contacts WHERE id IN (...)\<close>: the rows of the table whose id is listed.\<close>

definition select_contacts :: "nat list \<Rightarrow> world \<Rightarrow> contact list" where
  "select_contacts ids w = filter (\<lambda>c. contact_id c \<in> set ids) (contacts w)"

text \<open>\<^verbatim>\<open>stmt.run(campaignId, contact.id, contact.phone, personalizedMessage)\<close>.\<close>

definition insert_message :: "nat \<Rightarrow> string \<Rightarrow> contact \<Rightarrow> world \<Rightarrow> world" where
  "insert_message cid message c w =
     w\<lparr>messages := messages w @
          [\<lparr>message_id = Suc (message_seq w), message_campaign_id = cid,
            message_contact_id = contact_id c, message_phone = contact_phone c,
            message_text = personalizedMessage message c, message_status = Pending,
            sent_at = None, message_error = None\<rparr>],
       message_seq := Suc (message_seq w)\<rparr>"

definition insert_campaign :: "campaign_request \<Rightarrow> world \<Rightarrow> world" where
  "insert_campaign req w =
     w\<lparr>campaigns := campaigns w @
          [\<lparr>campaign_id = Suc (campaign_seq w), campaign_name = req_name req,
            campaign_message = req_message req,
            media_url = (case req_file req of None \<Rightarrow> None
                         | Some (filename, mimetype) \<Rightarrow> Some (''/uploads/'' @ filename)),
            media_type = (case req_file req of None \<Rightarrow> None
                          | Some (filename, mimetype) \<Rightarrow> Some mimetype),
            campaign_status = (if truthy (req_scheduled_at req) then Scheduled else Draft),
            scheduled_at = req_scheduled_at req, completed_at = None\<rparr>],
       campaign_seq := Suc (campaign_seq w)\<rparr>"

text \<open>
  \<^verbatim>\<open>app.post('/api/campaigns')\<close> (lines 415-464). \<open>insert_err\<close> and \<open>select_err\<close>
  are what SQLite passes to the two callbacks. The campaign row is written first; the
  contacts are read in its callback.
\<close>

definition create_campaign ::
  "string option \<Rightarrow> string option \<Rightarrow> campaign_request \<Rightarrow> world \<Rightarrow> response \<times> world" where
  "create_campaign insert_err select_err req w =
     (case insert_err of
        Some e \<Rightarrow> (Http_500 e, w)
      | None \<Rightarrow>
          let w1 = insert_campaign req w;
              campaignId = campaign_seq w1
          in (case select_err of
                Some e \<Rightarrow> (Http_500 e, w1)
              | None \<Rightarrow>
                  (Json_created campaignId,
                   fold (insert_message campaignId (req_message req))
                        (select_contacts (req_contacts req) w1) w1)))"

subsection \<open>Templates and the rows written for them\<close>

text \<open>
  The three placeholders. \<open>braces_ok toks s\<close>: every opening brace of \<open>s\<close> begins one
  of the texts \<open>toks\<close>. A text is \<open>clean\<close> when it has neither an opening brace nor a
  dollar sign; a field is clean when it is absent or its value is clean. A \<open>token\<close> is
  an opening brace followed by a text without one.
\<close>

definition placeholders :: "string list" where
  "placeholders = [''{name}'', ''{phone}'', ''{email}'']"

fun braces_ok :: "string list \<Rightarrow> string \<Rightarrow> bool" where
  "braces_ok toks [] = True"
| "braces_ok toks (c # cs) =
     ((c = CHR ''{'' \<longrightarrow> (\<exists>t \<in> set toks. prefix t (c # cs))) \<and> braces_ok toks cs)"

definition clean :: "string \<Rightarrow> bool" where
  "clean s = (CHR ''{'' \<notin> set s \<and> CHR ''$'' \<notin> set s)"

definition clean_field :: "string option \<Rightarrow> bool" where
  "clean_field v = (case v of None \<Rightarrow> True | Some s \<Rightarrow> clean s)"

definition token :: "string \<Rightarrow> bool" where
  "token t = (case t of [] \<Rightarrow> False | c # b \<Rightarrow> c = CHR ''{'' \<and> CHR ''{'' \<notin> set b)"

text \<open>The row \<open>m\<close> is the one written for the contact \<open>c\<close>.\<close>

definition message_for :: "nat \<Rightarrow> string \<Rightarrow> contact \<Rightarrow> message \<Rightarrow> bool" where
  "message_for cid template c m =
     (message_campaign_id m = cid \<and> message_contact_id m = contact_id c \<and>
      message_phone m = contact_phone c \<and> message_text m = personalizedMessage template c \<and>
      message_status m = Pending)"

subsection \<open>Statements on the campaigns and messages tables\<close>

text \<open>\<^verbatim>\<open>db.get('SELECT * FROM campaigns WHERE id = ?')\<close>: the row, or \<^verbatim>\<open>undefined\<close>.\<close>

definition get_campaign :: "nat \<Rightarrow> world \<Rightarrow> campaign option" where
  "get_campaign cid w = find (\<lambda>c. campaign_id c = cid) (campaigns w)"

text \<open>\<^verbatim>\<open>UPDATE campaigns SET status = ... WHERE id = ?\<close>: no condition on the old status.\<close>

definition update_campaign_status :: "campaign_status \<Rightarrow> nat \<Rightarrow> world \<Rightarrow> world" where
  "update_campaign_status st cid w =
     w\<lparr>campaigns := map (\<lambda>c. if campaign_id c = cid then c\<lparr>campaign_status := st\<rparr> else c)
                          (campaigns w)\<rparr>"

text \<open>
  \<^verbatim>\<open>UPDATE campaigns SET status = 'completed', completed_at = CURRENT_TIMESTAMP WHERE id = ?\<close>
\<close>

definition complete_campaign :: "nat \<Rightarrow> nat \<Rightarrow> world \<Rightarrow> world" where
  "complete_campaign now cid w =
     w\<lparr>campaigns := map (\<lambda>c. if campaign_id c = cid
                               then c\<lparr>campaign_status := Completed, completed_at := Some now\<rparr>
                               else c) (campaigns w)\<rparr>"

text \<open>
  \<^verbatim>\<open>SELECT m.*, c.name FROM messages m LEFT JOIN contacts c ON m.contact_id = c.id
  WHERE m.campaign_id = ? AND m.status = 'pending'\<close>. The join adds the contact's name to
  each row, which the loop does not read; the rows are those of the messages table.
\<close>

definition select_pending :: "nat \<Rightarrow> world \<Rightarrow> message list" where
  "select_pending cid w =
     filter (\<lambda>m. message_campaign_id m = cid \<and> message_status m = Pending) (messages w)"

text \<open>\<^verbatim>\<open>UPDATE messages SET status = 'sent', sent_at = CURRENT_TIMESTAMP WHERE id = ?\<close>\<close>

definition mark_sent :: "nat \<Rightarrow> nat \<Rightarrow> world \<Rightarrow> world" where
  "mark_sent now mid w =
     w\<lparr>messages := map (\<lambda>m. if message_id m = mid
                              then m\<lparr>message_status := Sent, sent_at := Some now\<rparr> else m)
                         (messages w)\<rparr>"

text \<open>\<^verbatim>\<open>UPDATE messages SET status = 'failed', error = ? WHERE id = ?\<close>\<close>

definition mark_failed :: "string \<Rightarrow> nat \<Rightarrow> world \<Rightarrow> world" where
  "mark_failed e mid w =
     w\<lparr>messages := map (\<lambda>m. if message_id m = mid
                              then m\<lparr>message_status := Failed, message_error := Some e\<rparr> else m)
                         (messages w)\<rparr>"

subsection \<open>Pausing\<close>

text \<open>\<^verbatim>\<open>app.post('/api/campaigns/:id/pause')\<close> (lines 493-505).\<close>

definition pause_campaign :: "string option \<Rightarrow> nat \<Rightarrow> world \<Rightarrow> response \<times> world" where
  "pause_campaign err cid w =
     (case err of
        Some e \<Rightarrow> (Http_500 e, w)
      | None \<Rightarrow> (Json_success, update_campaign_status Paused cid w))"

subsection \<open>The sending loop\<close>

text \<open>
  What the outside world does during one iteration of the loop over the pending messages:
  whether a pause request for the campaign has been served since the previous iteration
  (the loop is suspended at its \<^verbatim>\<open>await\<close>s, where the server handles other requests),
  the value of \<^verbatim>\<open>isClientReady\<close>, the errors of \<^verbatim>\<open>db.get\<close>,
  \<^verbatim>\<open>MessageMedia.fromUrl\<close> and \<^verbatim>\<open>client.sendMessage\<close> when they reject, and the clock.
\<close>

record attempt_env =
  pause_request :: bool
  isClientReady :: bool
  get_error :: "string option"
  media_error :: "string option"
  send_error :: "string option"
  clock :: nat

definition not_ready_error :: string where
  "not_ready_error = ''WhatsApp client not ready''"

text \<open>The messages of the TypeErrors raised by \<^verbatim>\<open>msg.phone.replace\<close> and \<^verbatim>\<open>campaign.media_url\<close>.\<close>

definition null_phone_error :: string where
  "null_phone_error = ''Cannot read properties of null (reading 'replace')''"

definition no_campaign_error :: string where
  "no_campaign_error = ''Cannot read properties of undefined (reading 'media_url')''"

text \<open>
  The \<^verbatim>\<open>try\<close> block up to the end of \<^verbatim>\<open>client.sendMessage\<close> (lines 195-220): the state
  with the call recorded, and the error that was thrown, if any. A media url that is
  \<^verbatim>\<open>null\<close> or empty is falsy, and the text is sent alone.
\<close>

definition sendMessage :: "attempt_env \<Rightarrow> send_call \<Rightarrow> world \<Rightarrow> world \<times> string option" where
  "sendMessage env call w = (w\<lparr>outbox := outbox w @ [call]\<rparr>, send_error env)"

definition try_send :: "attempt_env \<Rightarrow> nat \<Rightarrow> message \<Rightarrow> world \<Rightarrow> world \<times> string option" where
  "try_send env campaignId msg w =
     (if \<not> isClientReady env then (w, Some not_ready_error)
      else case message_phone msg of
        None \<Rightarrow> (w, Some null_phone_error)
      | Some phone \<Rightarrow>
          (case get_error env of
             Some e \<Rightarrow> (w, Some e)
           | None \<Rightarrow>
               (case get_campaign campaignId w of
                  None \<Rightarrow> (w, Some no_campaign_error)
                | Some campaign \<Rightarrow>
                    (case media_url campaign of
                       None \<Rightarrow>
                         sendMessage env \<lparr>call_to = formattedPhone phone,
                           call_content = Text (message_text msg), call_caption = None\<rparr> w
                     | Some url \<Rightarrow>
                         if url \<noteq> [] then
                           (case media_error env of
                              Some e \<Rightarrow> (w, Some e)
                            | None \<Rightarrow>
                                sendMessage env \<lparr>call_to = formattedPhone phone,
                                  call_content = Media url,
                                  call_caption = Some (message_text msg)\<rparr> w)
                         else
                           sendMessage env \<lparr>call_to = formattedPhone phone,
                             call_content = Text (message_text msg), call_caption = None\<rparr> w))))"

text \<open>
  One iteration (lines 193-248) on the state and the counters \<^verbatim>\<open>sent\<close> and
  \<^verbatim>\<open>failed\<close>. The message is the row read before the loop started; its status is not
  read again, and neither is the campaign's.
\<close>

definition attempt ::
  "attempt_env \<Rightarrow> nat \<Rightarrow> message \<Rightarrow> world \<times> nat \<times> nat \<Rightarrow> world \<times> nat \<times> nat" where
  "attempt env campaignId msg acc =
     (case acc of (w, sent, failed) \<Rightarrow>
        let w0 = (if pause_request env then snd (pause_campaign None campaignId w) else w)
        in (case try_send env campaignId msg w0 of
              (w1, None) \<Rightarrow> (mark_sent (clock env) (message_id msg) w1, Suc sent, failed)
            | (w1, Some e) \<Rightarrow> (mark_failed e (message_id msg) w1, sent, Suc failed)))"

fun send_loop ::
  "(nat \<Rightarrow> attempt_env) \<Rightarrow> nat \<Rightarrow> nat \<Rightarrow> message list \<Rightarrow> world \<times> nat \<times> nat
     \<Rightarrow> world \<times> nat \<times> nat" where
  "send_loop envs campaignId i [] acc = acc"
| "send_loop envs campaignId i (msg # rest) acc =
     send_loop envs campaignId (Suc i) rest (attempt (envs i) campaignId msg acc)"

record dispatch_env =
  select_error :: "string option"
  attempts :: "nat \<Rightarrow> attempt_env"
  finish_clock :: nat

record dispatch_result =
  sent :: nat
  failed :: nat
  total :: nat

text \<open>
  \<^verbatim>\<open>sendBulkMessages\<close> (lines 177-260): \<open>Inl\<close> when the promise is rejected, which
  happens only when the first query fails.
\<close>

definition sendBulkMessages ::
  "dispatch_env \<Rightarrow> nat \<Rightarrow> world \<Rightarrow> string + dispatch_result \<times> world" where
  "sendBulkMessages env campaignId w =
     (case select_error env of
        Some e \<Rightarrow> Inl e
      | None \<Rightarrow>
          let msgs = select_pending campaignId w
          in (case send_loop (attempts env) campaignId 0 msgs (w, 0, 0) of
                (w1, s, f) \<Rightarrow>
                  Inr (\<lparr>sent = s, failed = f, total = length msgs\<rparr>,
                       complete_campaign (finish_clock env) campaignId w1)))"

subsection \<open>Starting\<close>

text \<open>
  \<^verbatim>\<open>app.post('/api/campaigns/:id/start')\<close> (lines 467-490). \<open>start_update\<close> is the
  statement and the response sent from its callback; \<open>start_campaign\<close> adds the
  sending that follows in the background, whose rejection is only logged.
\<close>

definition start_update :: "string option \<Rightarrow> nat \<Rightarrow> world \<Rightarrow> response \<times> world" where
  "start_update err campaignId w =
     (case err of
        Some e \<Rightarrow> (Http_500 e, w)
      | None \<Rightarrow> (Json_success, update_campaign_status Running campaignId w))"

definition start_campaign ::
  "string option \<Rightarrow> dispatch_env \<Rightarrow> nat \<Rightarrow> world \<Rightarrow> response \<times> world" where
  "start_campaign err env campaignId w =
     (case start_update err campaignId w of
        (r, w1) \<Rightarrow>
          if err \<noteq> None then (r, w1)
          else (case sendBulkMessages env campaignId w1 of
                  Inl e \<Rightarrow> (r, w1)
                | Inr (result, w2) \<Rightarrow> (r, w2)))"

subsection \<open>The scheduler\<close>

text \<open>
  \<^verbatim>\<open>cron.schedule('* * * * *', ...)\<close> (lines 593-620). \<open>due\<close> stands for SQLite's
  \<^verbatim>\<open>datetime(scheduled_at) <= datetime('now')\<close>. The tick reads the due campaigns once
  (\<open>scheduler_due\<close>); for each row read, \<open>scheduler_start\<close> is the body of the loop:
  the update, whose outcome is not looked at, and the sending, whose rejection is logged.
\<close>

definition scheduler_due :: "(string option \<Rightarrow> bool) \<Rightarrow> world \<Rightarrow> campaign list" where
  "scheduler_due due w =
     filter (\<lambda>c. campaign_status c = Scheduled \<and> due (scheduled_at c)) (campaigns w)"

definition scheduler_start :: "dispatch_env \<Rightarrow> campaign \<Rightarrow> world \<Rightarrow> world" where
  "scheduler_start env c w =
     (let w1 = update_campaign_status Running (campaign_id c) w
      in (case sendBulkMessages env (campaign_id c) w1 of
            Inl e \<Rightarrow> w1
          | Inr (result, w2) \<Rightarrow> w2))"

fun scheduler_loop :: "(nat \<Rightarrow> dispatch_env) \<Rightarrow> nat \<Rightarrow> campaign list \<Rightarrow> world \<Rightarrow> world" where
  "scheduler_loop envs i [] w = w"
| "scheduler_loop envs i (c # cs) w = scheduler_loop envs (Suc i) cs (scheduler_start (envs i) c w)"

definition scheduler_tick ::
  "string option \<Rightarrow> (string option \<Rightarrow> bool) \<Rightarrow> (nat \<Rightarrow> dispatch_env) \<Rightarrow> world \<Rightarrow> world" where
  "scheduler_tick err due envs w =
     (case err of
        Some e \<Rightarrow> w
      | None \<Rightarrow> scheduler_loop envs 0 (scheduler_due due w) w)"

subsection \<open>Operations carried out one after the other\<close>

text \<open>
  A run of the sending loop, a pause request, a start request (also the one that resumes
  a paused campaign) and the scheduler's start of one campaign, each carried out as a
  whole before the next begins. \<open>row_step m m'\<close>: the row keeps its id; when it was
  pending it is unchanged, sent or failed; when it was not, it is unchanged.
\<close>

definition row_step :: "message \<Rightarrow> message \<Rightarrow> bool" where
  "row_step m m' =
     (message_id m' = message_id m \<and>
      (if message_status m = Pending
       then m' = m \<or> message_status m' = Sent \<or> message_status m' = Failed
       else m' = m))"

definition status_steps :: "message list \<Rightarrow> message list \<Rightarrow> bool" where
  "status_steps ms ms' = list_all2 row_step ms ms'"

datatype operation =
    Dispatch dispatch_env nat
  | Pause "string option" nat
  | Start "string option" dispatch_env nat
  | Tick_start dispatch_env campaign

fun perform :: "operation \<Rightarrow> world \<Rightarrow> world" where
  "perform (Dispatch env cid) w =
     (case sendBulkMessages env cid w of Inl e \<Rightarrow> w | Inr (res, w') \<Rightarrow> w')"
| "perform (Pause err cid) w = snd (pause_campaign err cid w)"
| "perform (Start err env cid) w = snd (start_campaign err env cid w)"
| "perform (Tick_start env c) w = scheduler_start env c w"

subsection \<open>The calls a run is expected to make\<close>

text \<open>
  Claim C10 in its own words: an attempt that reaches the send passes the stored phone
  number of the message it is attempting, with every character other than a digit
  removed and \<^verbatim>\<open>@c.us\<close> appended, together with that message's text. An attempt
  reaches the send when the client is ready, the phone number is there, the campaign
  row is read, and the media, if the campaign has any, are fetched. \<open>campaign_media\<close>
  is the media url of the campaign row, if the row exists.
\<close>

definition campaign_media :: "nat \<Rightarrow> world \<Rightarrow> string option option" where
  "campaign_media cid w = map_option media_url (get_campaign cid w)"

definition text_call :: "string \<Rightarrow> message \<Rightarrow> send_call" where
  "text_call phone msg =
     \<lparr>call_to = filter digit phone @ ''@c.us'', call_content = Text (message_text msg),
      call_caption = None\<rparr>"

definition media_call :: "string \<Rightarrow> string \<Rightarrow> message \<Rightarrow> send_call" where
  "media_call phone url msg =
     \<lparr>call_to = filter digit phone @ ''@c.us'', call_content = Media url,
      call_caption = Some (message_text msg)\<rparr>"

definition expected_calls :: "attempt_env \<Rightarrow> string option option \<Rightarrow> message \<Rightarrow> send_call list" where
  "expected_calls env media msg =
     (case message_phone msg of
        None \<Rightarrow> []
      | Some phone \<Rightarrow>
          if \<not> isClientReady env \<or> get_error env \<noteq> None then []
          else (case media of
                  None \<Rightarrow> []
                | Some None \<Rightarrow> [text_call phone msg]
                | Some (Some url) \<Rightarrow>
                    if url = [] then [text_call phone msg]
                    else if media_error env = None then [media_call phone url msg]
                    else []))"

subsection \<open>A small run\<close>

text \<open>
  Two contacts, a campaign for both of them, and two behaviours of the outside world:
  one where the client is ready and every send succeeds, one where the client is never
  ready.
\<close>

definition ana :: contact where
  "ana = \<lparr>contact_id = 1, contact_name = Some ''Ana'', contact_phone = Some ''+1555'',
          contact_email = None\<rparr>"

definition leo :: contact where
  "leo = \<lparr>contact_id = 2, contact_name = Some ''Leo'', contact_phone = Some ''+1556'',
          contact_email = Some ''leo@example.org''\<rparr>"

text \<open>A contact whose email address begins with the text of a placeholder.\<close>

definition eve :: contact where
  "eve = \<lparr>contact_id = 3, contact_name = Some ''Eve'', contact_phone = Some ''+1557'',
          contact_email = Some ''{name}@example.org''\<rparr>"

definition world0 :: world where
  "world0 = \<lparr>contacts = [ana, leo], campaigns = [], messages = [], campaign_seq = 0,
             message_seq = 0, outbox = []\<rparr>"

definition request0 :: campaign_request where
  "request0 = \<lparr>req_name = ''Greeting'', req_message = ''Hi {name}, your number is {phone}'',
               req_contacts = [1, 2], req_scheduled_at = None, req_file = None\<rparr>"

definition world1 :: world where
  "world1 = snd (create_campaign None None request0 world0)"

definition ready_attempt :: attempt_env where
  "ready_attempt = \<lparr>pause_request = False, isClientReady = True, get_error = None,
                    media_error = None, send_error = None, clock = 10\<rparr>"

definition ready_env :: dispatch_env where
  "ready_env = \<lparr>select_error = None, attempts = (\<lambda>i. ready_attempt), finish_clock = 20\<rparr>"

definition down_env :: dispatch_env where
  "down_env = \<lparr>select_error = None,
                attempts = (\<lambda>i. ready_attempt\<lparr>isClientReady := False\<rparr>), finish_clock = 20\<rparr>"

text \<open>The campaign of the small run, started.\<close>

definition world1r :: world where
  "world1r = snd (start_update None 1 world1)"

definition campaign1r :: campaign where
  "campaign1r = \<lparr>campaign_id = 1, campaign_name = ''Greeting'',
                    campaign_message = ''Hi {name}, your number is {phone}'',
                    media_url = None, media_type = None, campaign_status = Running,
                    scheduled_at = None, completed_at = None\<rparr>"

text \<open>The two rows written for the campaign.\<close>

definition message1 :: message where
  "message1 = \<lparr>message_id = 1, message_campaign_id = 1, message_contact_id = 1,
                 message_phone = Some ''+1555'', message_text = ''Hi Ana, your number is +1555'',
                 message_status = Pending, sent_at = None, message_error = None\<rparr>"

definition message2 :: message where
  "message2 = \<lparr>message_id = 2, message_campaign_id = 1, message_contact_id = 2,
                 message_phone = Some ''+1556'', message_text = ''Hi Leo, your number is +1556'',
                 message_status = Pending, sent_at = None, message_error = None\<rparr>"

text \<open>A pause request is served after the first attempt, before the second.\<close>

definition pause_env :: dispatch_env where
  "pause_env = \<lparr>select_error = None,
                 attempts = (\<lambda>i. ready_attempt\<lparr>pause_request := (i = 1)\<rparr>),
                 finish_clock = 20\<rparr>"

text \<open>The same campaign, created with a schedule, and that state after a start request.\<close>

definition world_s :: world where
  "world_s = snd (create_campaign None None
                    (request0\<lparr>req_scheduled_at := Some ''2030-01-01 09:00''\<rparr>) world0)"

definition campaign_s :: campaign where
  "campaign_s = \<lparr>campaign_id = 1, campaign_name = ''Greeting'',
                   campaign_message = ''Hi {name}, your number is {phone}'',
                   media_url = None, media_type = None, campaign_status = Scheduled,
                   scheduled_at = Some ''2030-01-01 09:00'', completed_at = None\<rparr>"

definition world_sr :: world where
  "world_sr = snd (start_update None 1 world_s)"

definition world2 :: world where
  "world2 = (case sendBulkMessages ready_env 1 world1 of Inr (r, w) \<Rightarrow> w | Inl e \<Rightarrow> world1)"

section \<open>Properties\<close>

subsection \<open>The small run, evaluated\<close>

lemma world1_eq:
  "world1 =
     \<lparr>contacts = [ana, leo],
      campaigns = [\<lparr>campaign_id = 1, campaign_name = ''Greeting'',
                    campaign_message = ''Hi {name}, your number is {phone}'',
                    media_url = None, media_type = None, campaign_status = Draft,
                    scheduled_at = None, completed_at = None\<rparr>],
      messages = [\<lparr>message_id = 1, message_campaign_id = 1, message_contact_id = 1,
                   message_phone = Some ''+1555'',
                   message_text = ''Hi Ana, your number is +1555'',
                   message_status = Pending, sent_at = None, message_error = None\<rparr>,
                  \<lparr>message_id = 2, message_campaign_id = 1, message_contact_id = 2,
                   message_phone = Some ''+1556'',
                   message_text = ''Hi Leo, your number is +1556'',
                   message_status = Pending, sent_at = None, message_error = None\<rparr>],
      campaign_seq = 1, message_seq = 2, outbox = []\<rparr>"
  by (simp add: world1_def create_campaign_def insert_campaign_def request0_def world0_def
        select_contacts_def insert_message_def personalizedMessage_def ana_def leo_def
        ToString_def truthy_def Let_def)

lemmas run_defs =
  sendBulkMessages_def select_pending_def attempt_def try_send_def sendMessage_def
  get_campaign_def mark_sent_def mark_failed_def complete_campaign_def pause_campaign_def
  update_campaign_status_def formattedPhone_def digit_def ready_env_def down_env_def
  ready_attempt_def not_ready_error_def Let_def

lemma world2_eq:
  "world2 =
     \<lparr>contacts = [ana, leo],
      campaigns = [\<lparr>campaign_id = 1, campaign_name = ''Greeting'',
                    campaign_message = ''Hi {name}, your number is {phone}'',
                    media_url = None, media_type = None, campaign_status = Completed,
                    scheduled_at = None, completed_at = Some 20\<rparr>],
      messages = [\<lparr>message_id = 1, message_campaign_id = 1, message_contact_id = 1,
                   message_phone = Some ''+1555'',
                   message_text = ''Hi Ana, your number is +1555'',
                   message_status = Sent, sent_at = Some 10, message_error = None\<rparr>,
                  \<lparr>message_id = 2, message_campaign_id = 1, message_contact_id = 2,
                   message_phone = Some ''+1556'',
                   message_text = ''Hi Leo, your number is +1556'',
                   message_status = Sent, sent_at = Some 10, message_error = None\<rparr>],
      campaign_seq = 1, message_seq = 2,
      outbox = [\<lparr>call_to = ''1555@c.us'',
                 call_content = Text ''Hi Ana, your number is +1555'', call_caption = None\<rparr>,
                \<lparr>call_to = ''1556@c.us'',
                 call_content = Text ''Hi Leo, your number is +1556'', call_caption = None\<rparr>]\<rparr>"
  unfolding world2_def world1_eq by (simp add: run_defs)

lemma ready_run:
  "sendBulkMessages ready_env 1 world1 = Inr (\<lparr>sent = 2, failed = 0, total = 2\<rparr>, world2)"
  unfolding world2_eq unfolding world1_eq by (simp add: run_defs)

lemma world1r_campaign: "get_campaign 1 world1r = Some campaign1r"
  unfolding world1r_def world1_eq
  by (simp add: start_update_def update_campaign_status_def get_campaign_def campaign1r_def)

lemma world_s_eq:
  "world_s = \<lparr>contacts = [ana, leo], campaigns = [campaign_s], messages = [message1, message2],
              campaign_seq = 1, message_seq = 2, outbox = []\<rparr>"
  by (simp add: world_s_def create_campaign_def insert_campaign_def request0_def world0_def
        select_contacts_def insert_message_def personalizedMessage_def ana_def leo_def
        ToString_def truthy_def Let_def campaign_s_def message1_def message2_def)

lemma world1r_eq:
  "world1r = \<lparr>contacts = [ana, leo], campaigns = [campaign1r], messages = [message1, message2],
              campaign_seq = 1, message_seq = 2, outbox = []\<rparr>"
  unfolding world1r_def world1_eq
  by (simp add: start_update_def update_campaign_status_def campaign1r_def message1_def message2_def)

subsection \<open>The address of a send\<close>

lemma includes_str_hd: "includes_str s pat \<Longrightarrow> pat \<noteq> [] \<Longrightarrow> hd pat \<in> set s"
  by (induction s) (cases pat; auto)+

lemma digits_no_suffix: "\<not> includes_str (filter digit phone) ''@c.us''"
proof
  assume "includes_str (filter digit phone) ''@c.us''"
  then have "hd ''@c.us'' \<in> set (filter digit phone)"
    by (rule includes_str_hd) simp
  then show False by (simp add: digit_def)
qed

lemma formattedPhone_eq: "formattedPhone phone = filter digit phone @ ''@c.us''"
  by (simp add: formattedPhone_def Let_def digits_no_suffix)

lemma outbox_mark_sent [simp]: "outbox (mark_sent t i w) = outbox w"
  by (simp add: mark_sent_def)

lemma outbox_mark_failed [simp]: "outbox (mark_failed e i w) = outbox w"
  by (simp add: mark_failed_def)

lemma outbox_update_status [simp]: "outbox (update_campaign_status st i w) = outbox w"
  by (simp add: update_campaign_status_def)

lemma outbox_complete [simp]: "outbox (complete_campaign t i w) = outbox w"
  by (simp add: complete_campaign_def)

subsection \<open>A run of the sending loop\<close>

lemma try_send_tables:
  "try_send env cid m w = (w', r) \<Longrightarrow>
     messages w' = messages w \<and> campaigns w' = campaigns w \<and> contacts w' = contacts w"
  by (auto simp: try_send_def sendMessage_def split: if_splits option.splits)

lemma try_send_not_ready:
  "\<not> isClientReady env \<Longrightarrow> try_send env cid m w = (w, Some not_ready_error)"
  by (simp add: try_send_def)

lemma get_campaign_map:
  assumes "\<And>c. campaign_id (g c) = campaign_id c"
  shows "find (\<lambda>c. campaign_id c = cid) (map (\<lambda>c. if campaign_id c = cid then g c else c) cs)
         = map_option g (find (\<lambda>c. campaign_id c = cid) cs)"
  using assms by (induction cs) auto

lemma get_campaign_update_status:
  "get_campaign cid (update_campaign_status st cid w)
     = map_option (\<lambda>c. c\<lparr>campaign_status := st\<rparr>) (get_campaign cid w)"
  unfolding get_campaign_def update_campaign_status_def
  using get_campaign_map [of "\<lambda>c. c\<lparr>campaign_status := st\<rparr>" cid "campaigns w"] by simp

lemma get_campaign_complete:
  "get_campaign cid (complete_campaign t cid w)
     = map_option (\<lambda>c. c\<lparr>campaign_status := Completed, completed_at := Some t\<rparr>) (get_campaign cid w)"
  unfolding get_campaign_def complete_campaign_def
  using get_campaign_map [of "\<lambda>c. c\<lparr>campaign_status := Completed, completed_at := Some t\<rparr>" cid "campaigns w"]
  by simp

lemma get_campaign_ids:
  "get_campaign cid w \<noteq> None \<longleftrightarrow> cid \<in> set (map campaign_id (campaigns w))"
  by (auto simp: get_campaign_def find_None_iff)

lemma campaign_ids_update_status [simp]:
  "map campaign_id (campaigns (update_campaign_status st cid w)) = map campaign_id (campaigns w)"
  by (simp add: update_campaign_status_def o_def cong: if_cong)

lemma messages_update_status [simp]:
  "messages (update_campaign_status st cid w) = messages w"
  by (simp add: update_campaign_status_def)

lemma messages_complete [simp]: "messages (complete_campaign t cid w) = messages w"
  by (simp add: complete_campaign_def)

lemma campaign_ids_mark_sent [simp]: "campaigns (mark_sent t i w) = campaigns w"
  by (simp add: mark_sent_def)

lemma campaign_ids_mark_failed [simp]: "campaigns (mark_failed e i w) = campaigns w"
  by (simp add: mark_failed_def)

text \<open>One iteration: the counters, the campaign ids, the rows of the messages table.\<close>

lemma attempt_cases:
  obtains w1 where
      "messages w1 = messages w" "map campaign_id (campaigns w1) = map campaign_id (campaigns w)"
      "attempt env cid msg (w, s, f) = (mark_sent (clock env) (message_id msg) w1, Suc s, f)"
      "isClientReady env"
    | w1 e where
      "messages w1 = messages w" "map campaign_id (campaigns w1) = map campaign_id (campaigns w)"
      "attempt env cid msg (w, s, f) = (mark_failed e (message_id msg) w1, s, Suc f)"
      "\<not> isClientReady env \<longrightarrow> e = not_ready_error \<and> outbox w1 = outbox w"
proof -
  define w0 where "w0 = (if pause_request env then snd (pause_campaign None cid w) else w)"
  have w0: "messages w0 = messages w" "map campaign_id (campaigns w0) = map campaign_id (campaigns w)"
    "outbox w0 = outbox w"
    by (simp_all add: w0_def pause_campaign_def)
  obtain w1 r where ts: "try_send env cid msg w0 = (w1, r)" by (cases "try_send env cid msg w0")
  note t = try_send_tables [OF ts]
  show thesis
  proof (cases r)
    case None
    with ts have "isClientReady env" by (auto simp: try_send_def split: if_splits)
    with None ts t w0 that(1) [of w1] show thesis
      by (simp add: attempt_def w0_def [symmetric] Let_def)
  next
    case (Some e)
    have "\<not> isClientReady env \<longrightarrow> e = not_ready_error \<and> outbox w1 = outbox w"
      using ts Some w0 by (auto simp: try_send_not_ready)
    with Some ts t w0 that(2) [of w1 e] show thesis
      by (simp add: attempt_def w0_def [symmetric] Let_def)
  qed
qed


lemma send_loop_campaign_ids:
  "send_loop envs cid i ms (w, s, f) = (w', s', f') \<Longrightarrow>
     map campaign_id (campaigns w') = map campaign_id (campaigns w)"
proof (induction ms arbitrary: i w s f)
  case Nil
  then show ?case by simp
next
  case (Cons m ms)
  show ?case
    by (rule attempt_cases [where w = w and env = "envs i" and cid = cid and msg = m and s = s and f = f])
       (use Cons in auto)
qed

lemma send_loop_messages:
  "send_loop envs cid i ms (w, s, f) = (w', s', f') \<Longrightarrow>
     \<exists>h. messages w' = map h (messages w) \<and>
         (\<forall>m. message_id (h m) = message_id m \<and>
              message_campaign_id (h m) = message_campaign_id m \<and>
              (h m = m \<or> message_status (h m) \<noteq> Pending) \<and>
              (message_id m \<in> message_id ` set ms \<longrightarrow> message_status (h m) \<noteq> Pending) \<and>
              (message_id m \<notin> message_id ` set ms \<longrightarrow> h m = m))"
proof (induction ms arbitrary: i w s f)
  case Nil
  then show ?case by (auto intro: exI [of _ "\<lambda>m. m"])
next
  case (Cons msg ms)
  obtain wa sa fa where a: "attempt (envs i) cid msg (w, s, f) = (wa, sa, fa)"
    by (cases "attempt (envs i) cid msg (w, s, f)")
  have "\<exists>u. messages wa = map (\<lambda>m. if message_id m = message_id msg then u m else m) (messages w)
            \<and> (\<forall>m. message_id (u m) = message_id m \<and>
                    message_campaign_id (u m) = message_campaign_id m \<and>
                    message_status (u m) \<noteq> Pending)"
  proof (rule attempt_cases [where w = w and env = "envs i" and cid = cid and msg = msg
                             and s = s and f = f])
    fix w1
    assume "messages w1 = messages w"
      "attempt (envs i) cid msg (w, s, f) = (mark_sent (clock (envs i)) (message_id msg) w1, Suc s, f)"
    with a show ?thesis
      by (intro exI [of _ "\<lambda>m. m\<lparr>message_status := Sent, sent_at := Some (clock (envs i))\<rparr>"])
         (auto simp: mark_sent_def)
  next
    fix w1 e
    assume "messages w1 = messages w"
      "attempt (envs i) cid msg (w, s, f) = (mark_failed e (message_id msg) w1, s, Suc f)"
    with a show ?thesis
      by (intro exI [of _ "\<lambda>m. m\<lparr>message_status := Failed, message_error := Some e\<rparr>"])
         (auto simp: mark_failed_def)
  qed
  then obtain u where u: "messages wa = map (\<lambda>m. if message_id m = message_id msg then u m else m) (messages w)"
    "\<And>m. message_id (u m) = message_id m" "\<And>m. message_campaign_id (u m) = message_campaign_id m"
    "\<And>m. message_status (u m) \<noteq> Pending" by blast
  from Cons.prems a have "send_loop envs cid (Suc i) ms (wa, sa, fa) = (w', s', f')" by simp
  from Cons.IH [OF this] obtain h where h: "messages w' = map h (messages wa)"
    "\<And>m. message_id (h m) = message_id m" "\<And>m. message_campaign_id (h m) = message_campaign_id m"
    "\<And>m. h m = m \<or> message_status (h m) \<noteq> Pending"
    "\<And>m. message_id m \<in> message_id ` set ms \<Longrightarrow> message_status (h m) \<noteq> Pending"
    "\<And>m. message_id m \<notin> message_id ` set ms \<Longrightarrow> h m = m" by blast
  let ?g = "\<lambda>m. h (if message_id m = message_id msg then u m else m)"
  have "messages w' = map ?g (messages w)" by (simp add: h(1) u(1) o_def)
  moreover have "message_id (?g m) = message_id m" for m by (simp add: h(2) u(2))
  moreover have "message_campaign_id (?g m) = message_campaign_id m" for m by (simp add: h(3) u(3))
  moreover have "?g m = m \<or> message_status (?g m) \<noteq> Pending" for m
    using h(4) [of m] h(4) [of "u m"] u(4) [of m] by auto
  moreover have "message_id m \<in> message_id ` set (msg # ms) \<Longrightarrow> message_status (?g m) \<noteq> Pending" for m
    using h(4) [of "u m"] u(4) [of m] h(5) [of m] by auto
  moreover have "message_id m \<notin> message_id ` set (msg # ms) \<Longrightarrow> ?g m = m" for m
    using h(6) [of m] by auto
  ultimately show ?case by blast
qed

lemma send_loop_never_ready:
  assumes "\<forall>i. \<not> isClientReady (envs i)"
  shows "send_loop envs cid i ms (w, s, f) = (w', s', f') \<Longrightarrow>
     messages w' = map (\<lambda>m. if message_id m \<in> message_id ` set ms
                            then m\<lparr>message_status := Failed, message_error := Some not_ready_error\<rparr>
                            else m) (messages w) \<and>
     s' = s \<and> f' = f + length ms \<and> outbox w' = outbox w"
proof (induction ms arbitrary: i w s f)
  case Nil
  then show ?case by simp
next
  case (Cons msg ms)
  from assms have nr: "\<not> isClientReady (envs i)" by simp
  show ?case
  proof (rule attempt_cases [where w = w and env = "envs i" and cid = cid and msg = msg
                             and s = s and f = f])
    fix w1 assume "isClientReady (envs i)"
    with nr show ?thesis by simp
  next
    fix w1 e
    assume 1: "messages w1 = messages w"
      and 2: "attempt (envs i) cid msg (w, s, f) = (mark_failed e (message_id msg) w1, s, Suc f)"
      and 3: "\<not> isClientReady (envs i) \<longrightarrow> e = not_ready_error \<and> outbox w1 = outbox w"
    from Cons.prems 2
    have "send_loop envs cid (Suc i) ms (mark_failed e (message_id msg) w1, s, Suc f) = (w', s', f')"
      by simp
    from Cons.IH [OF this] 1 3 nr show ?thesis
      by (auto simp: mark_failed_def)
  qed
qed



text \<open>
  Claim C3. When the client is not ready in any iteration, the run still returns: the
  campaign is completed, every attempt is counted as failed, nothing is sent, and every
  row that was pending for the campaign is failed with the error
  \<^verbatim>\<open>WhatsApp client not ready\<close>.
\<close>

theorem never_ready_all_failed:
  assumes "get_campaign cid w = Some c" and "select_error env = None"
    and "\<forall>i. \<not> isClientReady (attempts env i)"
  shows "\<exists>res w' c'. sendBulkMessages env cid w = Inr (res, w') \<and>
           get_campaign cid w' = Some c' \<and> campaign_status c' = Completed \<and>
           total res = length (select_pending cid w) \<and>
           failed res = total res \<and> sent res = 0 \<and>
           outbox w' = outbox w \<and>
           length (messages w') = length (messages w) \<and>
           (\<forall>j < length (messages w).
              message_campaign_id (messages w ! j) = cid \<and> message_status (messages w ! j) = Pending
              \<longrightarrow> message_status (messages w' ! j) = Failed \<and>
                  message_error (messages w' ! j) = Some ''WhatsApp client not ready'')"
proof -
  let ?ms = "select_pending cid w"
  obtain w1 s f where sl: "send_loop (attempts env) cid 0 ?ms (w, 0, 0) = (w1, s, f)"
    by (cases "send_loop (attempts env) cid 0 ?ms (w, 0, 0)")
  let ?w' = "complete_campaign (finish_clock env) cid w1"
  have run: "sendBulkMessages env cid w = Inr (\<lparr>sent = s, failed = f, total = length ?ms\<rparr>, ?w')"
    using assms(2) sl by (simp add: sendBulkMessages_def Let_def)
  have "cid \<in> set (map campaign_id (campaigns w))"
    using assms(1) get_campaign_ids [of cid w] by simp
  then have "cid \<in> set (map campaign_id (campaigns w1))"
    using send_loop_campaign_ids [OF sl] by simp
  then obtain c1 where c1: "get_campaign cid w1 = Some c1"
    using get_campaign_ids [of cid w1] by auto
  have c': "get_campaign cid ?w' = Some (c1\<lparr>campaign_status := Completed, completed_at := Some (finish_clock env)\<rparr>)"
    by (simp add: get_campaign_complete c1)
  note nr = send_loop_never_ready [OF assms(3) sl]
  have rows: "message_status (messages ?w' ! j) = Failed \<and>
        message_error (messages ?w' ! j) = Some ''WhatsApp client not ready''"
    if "j < length (messages w)" "message_campaign_id (messages w ! j) = cid"
       "message_status (messages w ! j) = Pending" for j
  proof -
    from that have "messages w ! j \<in> set ?ms" by (simp add: select_pending_def)
    then have "message_id (messages w ! j) \<in> message_id ` set ?ms" by simp
    with that(1) nr show ?thesis by (simp add: not_ready_error_def)
  qed
  show ?thesis
    using run c' nr rows by simp
qed

theorem never_ready_all_failed_witness:
  "get_campaign 1 world1r = Some campaign1r \<and> select_error down_env = None \<and>
   (\<forall>i. \<not> isClientReady (attempts down_env i)) \<and>
   (\<exists>res w' c'. sendBulkMessages down_env 1 world1r = Inr (res, w') \<and>
           get_campaign 1 w' = Some c' \<and> campaign_status c' = Completed \<and>
           total res = length (select_pending 1 world1r) \<and>
           failed res = total res \<and> sent res = 0 \<and>
           outbox w' = outbox world1r \<and>
           length (messages w') = length (messages world1r) \<and>
           (\<forall>j < length (messages world1r).
              message_campaign_id (messages world1r ! j) = 1 \<and>
              message_status (messages world1r ! j) = Pending
              \<longrightarrow> message_status (messages w' ! j) = Failed \<and>
                  message_error (messages w' ! j) = Some ''WhatsApp client not ready''))"
proof -
  have 2: "select_error down_env = None" by (simp add: down_env_def)
  have 3: "\<forall>i. \<not> isClientReady (attempts down_env i)" by (simp add: down_env_def)
  show ?thesis
    using world1r_campaign 2 3 never_ready_all_failed [OF world1r_campaign 2 3] by blast
qed

subsection \<open>The calls of a run\<close>

lemma find_update_status:
  "find (\<lambda>c. campaign_id c = cid)
        (map (\<lambda>c. if campaign_id c = cid' then c\<lparr>campaign_status := st\<rparr> else c) cs)
   = map_option (\<lambda>c. if campaign_id c = cid' then c\<lparr>campaign_status := st\<rparr> else c)
       (find (\<lambda>c. campaign_id c = cid) cs)"
  by (induction cs) auto

lemma campaign_media_update_status [simp]:
  "campaign_media cid (update_campaign_status st cid' w) = campaign_media cid w"
  by (cases "find (\<lambda>c. campaign_id c = cid) (campaigns w)")
     (simp_all add: campaign_media_def get_campaign_def update_campaign_status_def
        find_update_status)

lemma campaign_media_campaigns:
  "campaigns w' = campaigns w \<Longrightarrow> campaign_media cid w' = campaign_media cid w"
  by (simp add: campaign_media_def get_campaign_def)

lemma try_send_calls:
  assumes "try_send env cid msg w = (w', r)"
  shows "outbox w' = outbox w @ expected_calls env (campaign_media cid w) msg"
proof (cases "isClientReady env \<and> get_error env = None")
  case False
  with assms show ?thesis
    by (auto simp: try_send_def expected_calls_def split: option.splits if_splits)
next
  case ready: True
  show ?thesis
  proof (cases "message_phone msg")
    case None
    with assms ready show ?thesis by (simp add: try_send_def expected_calls_def)
  next
    case (Some phone)
    show ?thesis
    proof (cases "get_campaign cid w")
      case None
      with assms ready Some show ?thesis
        by (simp add: try_send_def expected_calls_def campaign_media_def)
    next
      case c: (Some campaign)
      show ?thesis
      proof (cases "media_url campaign")
        case None
        with assms ready Some c show ?thesis
          by (auto simp: try_send_def expected_calls_def campaign_media_def sendMessage_def
                text_call_def formattedPhone_eq)
      next
        case url: (Some url)
        with assms ready Some c show ?thesis
          by (cases "media_error env")
             (auto simp: try_send_def expected_calls_def campaign_media_def sendMessage_def
                text_call_def media_call_def formattedPhone_eq split: if_splits)
      qed
    qed
  qed
qed

lemma attempt_calls:
  assumes "attempt env cid msg (w, s, f) = (w', s', f')"
  shows "outbox w' = outbox w @ expected_calls env (campaign_media cid w) msg"
    and "campaign_media cid w' = campaign_media cid w"
proof -
  define w0 where "w0 = (if pause_request env then snd (pause_campaign None cid w) else w)"
  have w0: "outbox w0 = outbox w" "campaign_media cid w0 = campaign_media cid w"
    by (simp_all add: w0_def pause_campaign_def)
  obtain w1 r where ts: "try_send env cid msg w0 = (w1, r)" by (cases "try_send env cid msg w0")
  from try_send_tables [OF ts] have "campaigns w1 = campaigns w0" by simp
  then have c1: "campaign_media cid w1 = campaign_media cid w0"
    by (rule campaign_media_campaigns)
  from assms ts have w': "w' = (case r of None \<Rightarrow> mark_sent (clock env) (message_id msg) w1
                                     | Some e \<Rightarrow> mark_failed e (message_id msg) w1)"
    by (cases r) (auto simp: attempt_def w0_def [symmetric] Let_def)
  have "outbox w' = outbox w1" "campaigns w' = campaigns w1"
    unfolding w' by (cases r; simp)+
  then have "outbox w' = outbox w1" "campaign_media cid w' = campaign_media cid w1"
    by (simp_all add: campaign_media_def get_campaign_def)
  with try_send_calls [OF ts] w0 c1
  show "outbox w' = outbox w @ expected_calls env (campaign_media cid w) msg"
    and "campaign_media cid w' = campaign_media cid w" by simp_all
qed

lemma send_loop_calls:
  "send_loop envs cid i ms (w, s, f) = (w', s', f') \<Longrightarrow>
     outbox w' = outbox w @
       concat (map (\<lambda>(j, m). expected_calls (envs j) (campaign_media cid w) m) (enumerate i ms))"
proof (induction ms arbitrary: i w s f)
  case Nil
  then show ?case by simp
next
  case (Cons msg ms)
  obtain wa sa fa where a: "attempt (envs i) cid msg (w, s, f) = (wa, sa, fa)"
    by (cases "attempt (envs i) cid msg (w, s, f)")
  from Cons.prems a have "send_loop envs cid (Suc i) ms (wa, sa, fa) = (w', s', f')" by simp
  from Cons.IH [OF this] attempt_calls [OF a] show ?case by simp
qed

text \<open>
  Claim C10. The calls of \<^verbatim>\<open>client.sendMessage\<close> made during a run of
  \<^verbatim>\<open>sendBulkMessages\<close> are, in the order of the pending rows, exactly the expected
  calls of the attempts: each attempt that reaches the send makes one call, for the row
  it is attempting, to that row's stored phone number with every character other than a
  digit removed, followed by \<^verbatim>\<open>@c.us\<close>; the other attempts make none. The digits alone
  never contain \<^verbatim>\<open>@c.us\<close>, so the test before the suffix is appended never skips it.
\<close>

theorem dispatch_addresses:
  assumes "sendBulkMessages env cid w = Inr (res, w')"
  shows "outbox w' = outbox w @
           concat (map (\<lambda>(i, m). expected_calls (attempts env i) (campaign_media cid w) m)
                       (enumerate 0 (select_pending cid w))) \<and>
         (\<forall>phone. \<not> includes_str (filter digit phone) ''@c.us'' \<and>
                  formattedPhone phone = filter digit phone @ ''@c.us'')"
proof -
  from assms have se: "select_error env = None"
    by (auto simp: sendBulkMessages_def split: option.splits)
  obtain w1 s f where
    sl: "send_loop (attempts env) cid 0 (select_pending cid w) (w, 0, 0) = (w1, s, f)"
    by (cases "send_loop (attempts env) cid 0 (select_pending cid w) (w, 0, 0)")
  with assms se have w': "w' = complete_campaign (finish_clock env) cid w1"
    by (simp add: sendBulkMessages_def Let_def)
  from send_loop_calls [OF sl] have "outbox w' = outbox w @
           concat (map (\<lambda>(i, m). expected_calls (attempts env i) (campaign_media cid w) m)
                       (enumerate 0 (select_pending cid w)))"
    by (simp add: w')
  then show ?thesis
    by (simp add: digits_no_suffix formattedPhone_eq)
qed

theorem dispatch_addresses_witness:
  "sendBulkMessages ready_env 1 world1 = Inr (\<lparr>sent = 2, failed = 0, total = 2\<rparr>, world2) \<and>
   outbox world2 = outbox world1 @
     concat (map (\<lambda>(i, m). expected_calls (attempts ready_env i) (campaign_media 1 world1) m)
                 (enumerate 0 (select_pending 1 world1))) \<and>
   outbox world2 = [text_call ''+1555'' message1, text_call ''+1556'' message2] \<and>
   map call_to (outbox world2) = [''1555@c.us'', ''1556@c.us''] \<and>
   \<not> includes_str (filter digit ''+1555'') ''@c.us'' \<and>
   formattedPhone ''+1555'' = filter digit ''+1555'' @ ''@c.us''"
proof -
  have 1: "outbox world2 = [text_call ''+1555'' message1, text_call ''+1556'' message2]"
    unfolding world2_eq by (simp add: text_call_def message1_def message2_def digit_def)
  have 2: "map call_to (outbox world2) = [''1555@c.us'', ''1556@c.us'']"
    unfolding world2_eq by simp
  from ready_run dispatch_addresses [OF ready_run] 1 2 show ?thesis by simp
qed

subsection \<open>Starting a campaign\<close>

lemma update_status_absent:
  "get_campaign cid w = None \<Longrightarrow> update_campaign_status st cid w = w"
proof -
  assume "get_campaign cid w = None"
  then have "\<forall>c \<in> set (campaigns w). campaign_id c \<noteq> cid"
    by (auto simp: get_campaign_def find_None_iff)
  then have "map (\<lambda>c. if campaign_id c = cid then c\<lparr>campaign_status := st\<rparr> else c) (campaigns w)
             = campaigns w"
    by (induction "campaigns w") (auto simp: map_idI)
  then show ?thesis by (simp add: update_campaign_status_def)
qed

text \<open>
  The start handler has no test of the campaign: for an id that no campaign has, the
  request is answered with success, where claim C1 expects a failure.
\<close>

theorem start_unknown_id_counterexample:
  "get_campaign 7 world1 = None \<and> \<not> rejected (fst (start_campaign None ready_env 7 world1))
   \<and> fst (start_campaign None ready_env 7 world1) = Json_success"
  unfolding world1_eq
  by (simp add: rejected_def start_campaign_def start_update_def run_defs)

lemma complete_absent:
  "get_campaign cid w = None \<Longrightarrow> complete_campaign t cid w = w"
proof -
  assume "get_campaign cid w = None"
  then have "\<forall>c \<in> set (campaigns w). campaign_id c \<noteq> cid"
    by (auto simp: get_campaign_def find_None_iff)
  then have "map (\<lambda>c. if campaign_id c = cid
                        then c\<lparr>campaign_status := Completed, completed_at := Some t\<rparr> else c)
                 (campaigns w) = campaigns w"
    by (induction "campaigns w") (auto simp: map_idI)
  then show ?thesis by (simp add: complete_campaign_def)
qed

lemma get_campaign_other:
  "i \<noteq> cid \<Longrightarrow> get_campaign i (update_campaign_status st cid w) = get_campaign i w"
proof -
  assume "i \<noteq> cid"
  then have "find (\<lambda>c. campaign_id c = i)
               (map (\<lambda>c. if campaign_id c = cid then c\<lparr>campaign_status := st\<rparr> else c) cs)
             = find (\<lambda>c. campaign_id c = i) cs" for cs
    by (induction cs) auto
  then show ?thesis by (simp add: get_campaign_def update_campaign_status_def)
qed

lemma run_world1r:
  "sendBulkMessages ready_env 1 world1r = Inr (\<lparr>sent = 2, failed = 0, total = 2\<rparr>, world2)"
  unfolding world2_eq world1r_eq
  by (simp add: run_defs campaign1r_def message1_def message2_def)

text \<open>
  Claim C1, as the handler has it, for an id that no campaign has and for a campaign
  that is a draft, scheduled or paused. When no campaign and no message carries the
  id, the handler answers with success and leaves the whole state as it was. When the
  campaign is a draft, scheduled or paused, the update answers with success and changes
  the status of that campaign to running and nothing else; the handler then runs the
  sending loop on that state. When the database reports an error on the update, the
  handler answers with the error and leaves the state as it was. Nothing is said here
  about a campaign that is running or completed.
\<close>

theorem start_transition:
  "(get_campaign cid w = None \<and> cid \<notin> message_campaign_id ` set (messages w) \<longrightarrow>
      start_campaign None env cid w = (Json_success, w)) \<and>
   (\<forall>c. get_campaign cid w = Some c \<and> campaign_status c \<in> {Draft, Scheduled, Paused} \<longrightarrow>
      (\<exists>w1. w1 = w\<lparr>campaigns := map (\<lambda>c'. if campaign_id c' = cid
                                               then c'\<lparr>campaign_status := Running\<rparr> else c')
                                       (campaigns w)\<rparr> \<and>
            get_campaign cid w1 = Some (c\<lparr>campaign_status := Running\<rparr>) \<and>
            (\<forall>i. i \<noteq> cid \<longrightarrow> get_campaign i w1 = get_campaign i w) \<and>
            start_update None cid w = (Json_success, w1) \<and>
            start_campaign None env cid w
              = (Json_success,
                 case sendBulkMessages env cid w1 of Inl e \<Rightarrow> w1 | Inr (res, w2) \<Rightarrow> w2))) \<and>
   start_campaign (Some e) env cid w = (Http_500 e, w)"
proof (intro conjI allI impI)
  assume a: "get_campaign cid w = None \<and> cid \<notin> message_campaign_id ` set (messages w)"
  then have u: "update_campaign_status Running cid w = w" by (simp add: update_status_absent)
  from a have p: "select_pending cid w = []"
    by (auto simp: select_pending_def filter_empty_conv)
  show "start_campaign None env cid w = (Json_success, w)"
    using u p a
    by (cases "select_error env")
       (auto simp: start_campaign_def start_update_def sendBulkMessages_def complete_absent)
next
  fix c
  assume a: "get_campaign cid w = Some c \<and> campaign_status c \<in> {Draft, Scheduled, Paused}"
  let ?w1 = "update_campaign_status Running cid w"
  have 1: "?w1 = w\<lparr>campaigns := map (\<lambda>c'. if campaign_id c' = cid
                                               then c'\<lparr>campaign_status := Running\<rparr> else c')
                                       (campaigns w)\<rparr>"
    by (simp add: update_campaign_status_def)
  have 2: "get_campaign cid ?w1 = Some (c\<lparr>campaign_status := Running\<rparr>)"
    using a by (simp add: get_campaign_update_status)
  have 3: "\<forall>i. i \<noteq> cid \<longrightarrow> get_campaign i ?w1 = get_campaign i w"
    by (simp add: get_campaign_other)
  have 4: "start_update None cid w = (Json_success, ?w1)"
    by (simp add: start_update_def)
  have 5: "start_campaign None env cid w
              = (Json_success,
                 case sendBulkMessages env cid ?w1 of Inl e \<Rightarrow> ?w1 | Inr (res, w2) \<Rightarrow> w2)"
    by (auto simp: start_campaign_def start_update_def split: sum.splits)
  show "\<exists>w1. w1 = w\<lparr>campaigns := map (\<lambda>c'. if campaign_id c' = cid
                                               then c'\<lparr>campaign_status := Running\<rparr> else c')
                                       (campaigns w)\<rparr> \<and>
            get_campaign cid w1 = Some (c\<lparr>campaign_status := Running\<rparr>) \<and>
            (\<forall>i. i \<noteq> cid \<longrightarrow> get_campaign i w1 = get_campaign i w) \<and>
            start_update None cid w = (Json_success, w1) \<and>
            start_campaign None env cid w
              = (Json_success,
                 case sendBulkMessages env cid w1 of Inl e \<Rightarrow> w1 | Inr (res, w2) \<Rightarrow> w2)"
    using 2 3 4 5 unfolding 1 by blast
next
  show "start_campaign (Some e) env cid w = (Http_500 e, w)"
    by (simp add: start_campaign_def start_update_def)
qed

theorem start_transition_witness:
  "get_campaign 7 world1 = None \<and> 7 \<notin> message_campaign_id ` set (messages world1) \<and>
   start_campaign None ready_env 7 world1 = (Json_success, world1) \<and>
   get_campaign 1 world1 = Some (campaign1r\<lparr>campaign_status := Draft\<rparr>) \<and>
   start_update None 1 world1 = (Json_success, world1r) \<and>
   get_campaign 1 world1r = Some campaign1r \<and>
   start_campaign None ready_env 1 world1 = (Json_success, world2) \<and>
   start_campaign (Some ''SQLITE_BUSY'') ready_env 1 world1 = (Http_500 ''SQLITE_BUSY'', world1)"
proof -
  have a: "get_campaign 7 world1 = None \<and> 7 \<notin> message_campaign_id ` set (messages world1)"
    unfolding world1_eq by (simp add: get_campaign_def)
  have b: "get_campaign 1 world1 = Some (campaign1r\<lparr>campaign_status := Draft\<rparr>) \<and>
           campaign_status (campaign1r\<lparr>campaign_status := Draft\<rparr>) \<in> {Draft, Scheduled, Paused}"
    unfolding world1_eq by (simp add: get_campaign_def campaign1r_def)
  have r: "world1r = world1\<lparr>campaigns := map (\<lambda>c'. if campaign_id c' = 1
                                               then c'\<lparr>campaign_status := Running\<rparr> else c')
                                       (campaigns world1)\<rparr>"
    by (simp add: world1r_def start_update_def update_campaign_status_def)
  note t7 = start_transition [of 7 world1 ready_env "''SQLITE_BUSY''"]
  note t1 = start_transition [of 1 world1 ready_env "''SQLITE_BUSY''"]
  from t7 a have 1: "start_campaign None ready_env 7 world1 = (Json_success, world1)" by blast
  from t1 b have 2: "start_update None 1 world1 = (Json_success, world1r) \<and>
       start_campaign None ready_env 1 world1
         = (Json_success, case sendBulkMessages ready_env 1 world1r of
                            Inl e \<Rightarrow> world1r | Inr (res, w2) \<Rightarrow> w2)"
    unfolding r by blast
  from t1 have 3: "start_campaign (Some ''SQLITE_BUSY'') ready_env 1 world1
                     = (Http_500 ''SQLITE_BUSY'', world1)" by blast
  from 2 have 4: "start_campaign None ready_env 1 world1 = (Json_success, world2)"
    unfolding run_world1r by simp
  from a b 1 2 3 4 world1r_campaign show ?thesis by simp
qed

subsection \<open>Creating a campaign without contacts\<close>

text \<open>
  Claim C9 expects a request with an empty list of contact ids to fail and to leave
  nothing behind. The handler writes the campaign row before it reads the contacts, and
  has no test of the list: the request is answered with the new id, the campaign row
  stays, and no message is written.
\<close>

theorem create_without_contacts:
  "create_campaign None None (req\<lparr>req_contacts := []\<rparr>) w
     = (Json_created (Suc (campaign_seq w)), insert_campaign (req\<lparr>req_contacts := []\<rparr>) w) \<and>
   \<not> rejected (fst (create_campaign None None (req\<lparr>req_contacts := []\<rparr>) w)) \<and>
   length (campaigns (snd (create_campaign None None (req\<lparr>req_contacts := []\<rparr>) w)))
     = Suc (length (campaigns w)) \<and>
   messages (snd (create_campaign None None (req\<lparr>req_contacts := []\<rparr>) w)) = messages w"
  by (simp add: create_campaign_def select_contacts_def insert_campaign_def Let_def rejected_def)

subsection \<open>Substitution\<close>

text \<open>
  Claim C5 expects the empty text in place of a placeholder whose field is absent. The
  contact \<open>ana\<close> has no email: the text "null" is inserted. Nor is a value always
  inserted as it is: a name \<^verbatim>\<open>$&\<close> stands for the matched text, and the placeholder
  comes back.
\<close>

theorem null_email_body:
  "contact_email ana = None \<and> personalizedMessage ''Mail: {email}'' ana = ''Mail: null'' \<and>
   personalizedMessage ''Hi {name}'' (ana\<lparr>contact_name := Some ''$&''\<rparr>) = ''Hi {name}''"
  by (simp add: personalizedMessage_def ana_def ToString_def)

subsection \<open>The rows of a new campaign\<close>

lemma GetSubstitution_plain:
  "CHR ''$'' \<notin> set r \<Longrightarrow> GetSubstitution m pre post r = r"
  by (induction m pre post r rule: GetSubstitution.induct) auto

lemma replace_g_skip:
  "CHR ''{'' \<notin> set b \<Longrightarrow>
     replace_g (CHR ''{'' # body) repl pre (b @ rest)
       = b @ replace_g (CHR ''{'' # body) repl (pre @ b) rest"
  by (induction b arbitrary: pre) auto

lemma braces_ok_append_plain:
  "CHR ''{'' \<notin> set u \<Longrightarrow> braces_ok toks (u @ r) = braces_ok toks r"
  by (induction u) auto

lemma braces_ok_drop: "braces_ok toks s \<Longrightarrow> braces_ok toks (drop n s)"
proof (induction s arbitrary: n)
  case Nil
  then show ?case by simp
next
  case (Cons c cs)
  then show ?case by (cases n) auto
qed

lemma token_iff: "token t \<longleftrightarrow> (\<exists>b. t = CHR ''{'' # b \<and> CHR ''{'' \<notin> set b)"
  by (cases t) (auto simp: token_def)

lemma replace_g_braces:
  "pat = CHR ''{'' # body \<Longrightarrow> CHR ''{'' \<notin> set body \<Longrightarrow> \<forall>t \<in> set toks. token t \<Longrightarrow>
   clean repl \<Longrightarrow> braces_ok (pat # toks) s \<Longrightarrow>
   braces_ok toks (replace_g pat repl pre s)"
proof (induction pat repl pre s rule: replace_g.induct)
  case (1 pat repl pre)
  show ?case by simp
next
  case (2 pat repl pre c cs)
  note pat = \<open>pat = CHR ''{'' # body\<close>
  from \<open>clean repl\<close> have repl: "CHR ''{'' \<notin> set repl" "CHR ''$'' \<notin> set repl"
    by (simp_all add: clean_def)
  show ?case
  proof (cases "prefix pat (c # cs)")
    case True
    let ?rest = "drop (length pat) (c # cs)"
    have "braces_ok (pat # toks) ?rest"
      using "2.prems"(5) by (rule braces_ok_drop)
    with "2.IH"(1) True "2.prems" pat
    have "braces_ok toks (replace_g pat repl (pre @ pat) ?rest)" by simp
    moreover have "replace_g pat repl pre (c # cs) = repl @ replace_g pat repl (pre @ pat) ?rest"
      using True pat by (simp add: GetSubstitution_plain [OF repl(2)])
    ultimately show ?thesis
      by (simp only: braces_ok_append_plain [OF repl(1)])
  next
    case False
    let ?R = "replace_g pat repl (pre @ [c]) cs"
    have eq: "replace_g pat repl pre (c # cs) = c # ?R" using False by simp
    have "braces_ok (pat # toks) cs" using "2.prems"(5) by simp
    with "2.IH"(2) False "2.prems" have tail: "braces_ok toks ?R" by simp
    have head: "\<exists>t \<in> set toks. prefix t (c # ?R)" if c: "c = CHR ''{''"
    proof -
      from "2.prems"(5) c obtain t where t: "t \<in> set (pat # toks)" "prefix t (c # cs)" by auto
      with False have tt: "t \<in> set toks" by auto
      with "2.prems"(3) obtain b where b: "t = CHR ''{'' # b" "CHR ''{'' \<notin> set b"
        by (auto simp: token_iff)
      from t(2) b(1) obtain rest where rest: "cs = b @ rest" by (auto simp: prefix_def)
      have "?R = b @ replace_g pat repl ((pre @ [c]) @ b) rest"
        unfolding rest pat by (rule replace_g_skip [OF b(2)])
      with b c have "prefix t (c # ?R)" by simp
      with tt show ?thesis by blast
    qed
    show ?thesis unfolding eq using head tail by simp
  qed
qed

lemma braces_ok_Nil: "braces_ok [] s \<Longrightarrow> CHR ''{'' \<notin> set s"
  by (induction s) auto

lemma no_brace_no_token: "CHR ''{'' \<notin> set s \<Longrightarrow> \<not> includes_str s (CHR ''{'' # b)"
proof
  assume "CHR ''{'' \<notin> set s" "includes_str s (CHR ''{'' # b)"
  then show False using includes_str_hd [of s "CHR ''{'' # b"] by simp
qed

lemma clean_ToString: "clean_field v \<Longrightarrow> clean (ToString v)"
  by (cases v) (simp_all add: clean_field_def ToString_def clean_def)

lemma personalized_no_brace:
  assumes "braces_ok placeholders message"
    and "clean_field (contact_name c)" "clean_field (contact_phone c)"
        "clean_field (contact_email c)"
  shows "CHR ''{'' \<notin> set (personalizedMessage message c)"
proof -
  have 0: "braces_ok [''{name}'', ''{phone}'', ''{email}''] message"
    using assms(1) by (simp add: placeholders_def)
  have 1: "braces_ok [''{phone}'', ''{email}'']
             (replace_g ''{name}'' (ToString (contact_name c)) [] message)"
    by (rule replace_g_braces [where body = "''name}''", OF _ _ _ _ 0])
       (simp_all add: token_def clean_ToString assms)
  have 2: "braces_ok [''{email}'']
             (replace_g ''{phone}'' (ToString (contact_phone c)) []
               (replace_g ''{name}'' (ToString (contact_name c)) [] message))"
    by (rule replace_g_braces [where body = "''phone}''", OF _ _ _ _ 1])
       (simp_all add: token_def clean_ToString assms)
  have 3: "braces_ok [] (personalizedMessage message c)"
    unfolding personalizedMessage_def
    by (rule replace_g_braces [where body = "''email}''", OF _ _ _ _ 2])
       (simp_all add: token_def clean_ToString assms)
  then show ?thesis by (rule braces_ok_Nil)
qed

lemma fold_insert_message:
  "\<exists>new. messages (fold (insert_message cid template) rows w) = messages w @ new \<and>
         list_all2 (message_for cid template) rows new"
proof (induction rows arbitrary: w)
  case Nil
  show ?case by simp
next
  case (Cons c rows)
  let ?w1 = "insert_message cid template c w"
  from Cons.IH [of ?w1] obtain new where
    new: "messages (fold (insert_message cid template) rows ?w1) = messages ?w1 @ new"
      "list_all2 (message_for cid template) rows new" by blast
  obtain m where m: "messages ?w1 = messages w @ [m]" "message_for cid template c m"
    by (simp add: insert_message_def message_for_def)
  show ?case
    by (rule exI [of _ "m # new"]) (simp add: new m)
qed

lemma select_contacts_ids:
  assumes "distinct (map contact_id (contacts w))" and "distinct ids"
    and "set ids \<subseteq> contact_id ` set (contacts w)"
  shows "length (select_contacts ids w) = length ids"
    and "contact_id ` set (select_contacts ids w) = set ids"
    and "distinct (map contact_id (select_contacts ids w))"
proof -
  let ?rows = "select_contacts ids w"
  have m: "map contact_id ?rows = filter (\<lambda>i. i \<in> set ids) (map contact_id (contacts w))"
    by (simp add: select_contacts_def filter_map o_def)
  show d: "distinct (map contact_id ?rows)" unfolding m using assms(1) by simp
  show s: "contact_id ` set ?rows = set ids"
    using assms(3) by (auto simp: select_contacts_def)
  have a: "card (contact_id ` set ?rows) = length ?rows"
    using distinct_card [OF d] by simp
  have b: "card (set ids) = length ids"
    using assms(2) by (rule distinct_card)
  show "length ?rows = length ids" using a b s by simp
qed

lemma list_all2_right: "list_all2 P xs ys \<Longrightarrow> y \<in> set ys \<Longrightarrow> \<exists>x \<in> set xs. P x y"
  by (induction rule: list_all2_induct) auto

text \<open>
  Claim C6 says that no placeholder is left in a body whose contact has the field. The
  values are inserted one after the other and are not looked at again: a contact with
  a name, whose email address contains the text \<^verbatim>\<open>{name}\<close>, gets a body with that
  text in it.
\<close>

theorem token_remains_counterexample:
  "contact_name eve = Some ''Eve'' \<and>
   create_campaign None None
     \<lparr>req_name = ''Reply'', req_message = ''Write to {email}'', req_contacts = [3],
      req_scheduled_at = None, req_file = None\<rparr>
     (world0\<lparr>contacts := [ana, leo, eve]\<rparr>)
   = (Json_created 1,
      world0\<lparr>contacts := [ana, leo, eve],
        campaigns := [\<lparr>campaign_id = 1, campaign_name = ''Reply'',
                       campaign_message = ''Write to {email}'',
                       media_url = None, media_type = None, campaign_status = Draft,
                       scheduled_at = None, completed_at = None\<rparr>],
        messages := [\<lparr>message_id = 1, message_campaign_id = 1, message_contact_id = 3,
                      message_phone = Some ''+1557'',
                      message_text = ''Write to {name}@example.org'',
                      message_status = Pending, sent_at = None, message_error = None\<rparr>],
        campaign_seq := 1, message_seq := 1\<rparr>) \<and>
   includes_str ''Write to {name}@example.org'' ''{name}''"
  by (simp add: create_campaign_def insert_campaign_def world0_def
        select_contacts_def insert_message_def personalizedMessage_def ana_def leo_def eve_def
        ToString_def truthy_def Let_def)


text \<open>
  Claim C6, as the handler has it. For a list of N distinct ids of existing contacts
  (ids are unique in the contacts table), when the database reports no error, the
  handler answers with the new campaign id and appends exactly N rows to the messages
  table, one for each selected contact: pending, for the new campaign, with the
  contact's phone number and with the template after the three replacements. When every
  opening brace of the template begins one of the three placeholders and no field of
  the contact holds an opening brace or a dollar sign, the body has no opening brace,
  and so none of the three placeholders. For the two contacts of the small run the
  bodies are the expected ones.
\<close>

theorem create_campaign_messages:
  assumes "distinct (map contact_id (contacts w))" and "distinct (req_contacts req)"
    and "set (req_contacts req) \<subseteq> contact_id ` set (contacts w)"
  shows "\<exists>w' new. create_campaign None None req w = (Json_created (Suc (campaign_seq w)), w') \<and>
           messages w' = messages w @ new \<and>
           length new = length (req_contacts req) \<and>
           contact_id ` set (select_contacts (req_contacts req) w) = set (req_contacts req) \<and>
           list_all2 (message_for (Suc (campaign_seq w)) (req_message req))
             (select_contacts (req_contacts req) w) new \<and>
           (\<forall>m \<in> set new. \<forall>c \<in> set (contacts w).
              message_contact_id m = contact_id c \<and> braces_ok placeholders (req_message req) \<and>
              clean_field (contact_name c) \<and> clean_field (contact_phone c) \<and>
              clean_field (contact_email c)
              \<longrightarrow> CHR ''{'' \<notin> set (message_text m) \<and>
                  \<not> includes_str (message_text m) ''{name}'' \<and>
                  \<not> includes_str (message_text m) ''{phone}'' \<and>
                  \<not> includes_str (message_text m) ''{email}'')"
proof -
  let ?ids = "req_contacts req"
  let ?w1 = "insert_campaign req w"
  let ?cid = "Suc (campaign_seq w)"
  let ?rows = "select_contacts ?ids w"
  have rows1: "select_contacts ?ids ?w1 = ?rows"
    by (simp add: select_contacts_def insert_campaign_def)
  have seq1: "campaign_seq ?w1 = ?cid" "messages ?w1 = messages w"
    by (simp_all add: insert_campaign_def)
  let ?w' = "fold (insert_message ?cid (req_message req)) ?rows ?w1"
  have run: "create_campaign None None req w = (Json_created ?cid, ?w')"
    by (simp add: create_campaign_def Let_def rows1 seq1)
  from fold_insert_message [of ?cid "req_message req" ?rows ?w1] obtain new where
    new: "messages ?w' = messages w @ new"
      "list_all2 (message_for ?cid (req_message req)) ?rows new"
    by (auto simp: seq1)
  note sel = select_contacts_ids [OF assms]
  have len: "length new = length ?ids"
    using list_all2_lengthD [OF new(2)] sel(1) by simp
  have clean: "CHR ''{'' \<notin> set (message_text m)"
    if m: "m \<in> set new" and c: "c \<in> set (contacts w)"
      and mc: "message_contact_id m = contact_id c"
      and ok: "braces_ok placeholders (req_message req)" "clean_field (contact_name c)"
        "clean_field (contact_phone c)" "clean_field (contact_email c)" for m c
  proof -
    from list_all2_right [OF new(2) m]
    obtain c' where c': "c' \<in> set ?rows" "message_for ?cid (req_message req) c' m"
      by blast
    then have in_c: "c' \<in> set (contacts w)" and id_c: "contact_id c' = contact_id c"
      using mc by (simp_all add: select_contacts_def message_for_def)
    from assms(1) have "inj_on contact_id (set (contacts w))"
      by (simp add: distinct_map)
    from inj_onD [OF this id_c in_c c] have "c' = c" .
    with c'(2) have "message_text m = personalizedMessage (req_message req) c"
      by (simp add: message_for_def)
    with ok show ?thesis by (simp add: personalized_no_brace)
  qed
  have tok: "\<not> includes_str (message_text m) ''{name}'' \<and>
             \<not> includes_str (message_text m) ''{phone}'' \<and>
             \<not> includes_str (message_text m) ''{email}''"
    if "CHR ''{'' \<notin> set (message_text m)" for m
    using no_brace_no_token [OF that, of "''name}''"] no_brace_no_token [OF that, of "''phone}''"]
      no_brace_no_token [OF that, of "''email}''"] by simp
  show ?thesis
  proof (intro exI conjI ballI impI)
    show "create_campaign None None req w = (Json_created ?cid, ?w')" by (rule run)
    show "messages ?w' = messages w @ new" by (rule new(1))
    show "length new = length ?ids" by (rule len)
    show "contact_id ` set ?rows = set ?ids" by (rule sel(2))
    show "list_all2 (message_for ?cid (req_message req)) ?rows new" by (rule new(2))
  next
    fix m c
    assume "m \<in> set new" "c \<in> set (contacts w)"
      and "message_contact_id m = contact_id c \<and> braces_ok placeholders (req_message req) \<and>
           clean_field (contact_name c) \<and> clean_field (contact_phone c) \<and>
           clean_field (contact_email c)"
    then have nb: "CHR ''{'' \<notin> set (message_text m)" using clean by blast
    from nb show "CHR ''{'' \<notin> set (message_text m)" .
    from tok [OF nb] show "\<not> includes_str (message_text m) ''{name}''"
      "\<not> includes_str (message_text m) ''{phone}''"
      "\<not> includes_str (message_text m) ''{email}''" by simp_all
  qed
qed

theorem create_campaign_messages_witness:
  "distinct (map contact_id (contacts world0)) \<and> distinct (req_contacts request0) \<and>
   set (req_contacts request0) \<subseteq> contact_id ` set (contacts world0) \<and>
   map message_text (messages world1)
     = [''Hi Ana, your number is +1555'', ''Hi Leo, your number is +1556''] \<and>
   (\<exists>w' new. create_campaign None None request0 world0 = (Json_created (Suc (campaign_seq world0)), w') \<and>
           messages w' = messages world0 @ new \<and>
           length new = length (req_contacts request0) \<and>
           contact_id ` set (select_contacts (req_contacts request0) world0) = set (req_contacts request0) \<and>
           list_all2 (message_for (Suc (campaign_seq world0)) (req_message request0))
             (select_contacts (req_contacts request0) world0) new \<and>
           (\<forall>m \<in> set new. \<forall>c \<in> set (contacts world0).
              message_contact_id m = contact_id c \<and> braces_ok placeholders (req_message request0) \<and>
              clean_field (contact_name c) \<and> clean_field (contact_phone c) \<and>
              clean_field (contact_email c)
              \<longrightarrow> CHR ''{'' \<notin> set (message_text m) \<and>
                  \<not> includes_str (message_text m) ''{name}'' \<and>
                  \<not> includes_str (message_text m) ''{phone}'' \<and>
                  \<not> includes_str (message_text m) ''{email}''))"
proof -
  have 1: "distinct (map contact_id (contacts world0))"
    by (simp add: world0_def ana_def leo_def)
  have 2: "distinct (req_contacts request0)" by (simp add: request0_def)
  have 3: "set (req_contacts request0) \<subseteq> contact_id ` set (contacts world0)"
    by (simp add: world0_def ana_def leo_def request0_def)
  have 4: "map message_text (messages world1)
     = [''Hi Ana, your number is +1555'', ''Hi Leo, your number is +1556'']"
    unfolding world1_eq by simp
  show ?thesis
    by (intro conjI 1 2 3 4 create_campaign_messages [OF 1 2 3])
qed

subsection \<open>Pausing during a run\<close>

text \<open>
  Claim C4 expects the loop to stop at the next message once the campaign is paused. The
  loop never reads the campaign's status: with a pause request served after the first
  of two attempts, the campaign is paused when the second message is sent all the same,
  both messages end sent, and the last statement of the run marks the campaign
  completed. The outcome is the one of the run without the pause.
\<close>

theorem pause_not_observed:
  "pause_request (attempts pause_env 1) \<and>
   select_pending 1 world1r = [message1, message2] \<and>
   map campaign_status
     (campaigns (fst (attempt (attempts pause_env 1) 1 message2
                        (attempt (attempts pause_env 0) 1 message1 (world1r, 0, 0))))) = [Paused] \<and>
   sendBulkMessages pause_env 1 world1r = Inr (\<lparr>sent = 2, failed = 0, total = 2\<rparr>, world2) \<and>
   map message_status (messages world2) = [Sent, Sent] \<and>
   map campaign_status (campaigns world2) = [Completed] \<and>
   map call_to (outbox world2) = [''1555@c.us'', ''1556@c.us'']"
  unfolding world2_eq world1r_eq
  by (simp add: run_defs pause_env_def campaign1r_def message1_def message2_def)

subsection \<open>The scheduler and a start request\<close>

text \<open>The body of the scheduler's loop uses the id of the row it was given, nothing else.\<close>

lemma scheduler_start_by_id:
  "campaign_id c' = campaign_id c \<Longrightarrow> scheduler_start env c' w = scheduler_start env c w"
  by (simp add: scheduler_start_def)

lemma scheduler_tick_due:
  "scheduler_tick None due envs w = scheduler_loop envs 0 (scheduler_due due w) w"
  by (simp add: scheduler_tick_def)

text \<open>
  Claim C2 expects one of two racing starts to be refused. The tick reads the campaign
  while it is scheduled; a start request is served before the tick's loop reaches the
  campaign, is answered with success and makes the campaign running; the tick's loop
  then updates and dispatches the campaign without a look at its status. The two
  dispatchers have read the same pending rows, and the first message is sent twice.
\<close>

theorem scheduler_race:
  "scheduler_due (\<lambda>t. True) world_s = [campaign_s] \<and>
   start_update None 1 world_s = (Json_success, world_sr) \<and>
   map campaign_status (campaigns world_sr) = [Running] \<and>
   select_pending 1 world_sr = [message1, message2] \<and>
   map call_to (outbox (scheduler_start ready_env campaign_s world_sr))
     = [''1555@c.us'', ''1556@c.us''] \<and>
   map call_to (outbox (fst (attempt ready_attempt 1 message1
                               (fst (attempt ready_attempt 1 message1 (world_sr, 0, 0)), 0, 0))))
     = [''1555@c.us'', ''1555@c.us'']"
  unfolding world_sr_def world_s_eq
  by (simp add: run_defs scheduler_due_def scheduler_start_def start_update_def
        campaign_s_def message1_def message2_def)

subsection \<open>The status of a message\<close>

lemma row_step_refl: "row_step m m"
  by (simp add: row_step_def)

lemma row_step_trans: "row_step a b \<Longrightarrow> row_step b c \<Longrightarrow> row_step a c"
  by (auto simp: row_step_def split: if_splits)

lemma status_steps_refl: "status_steps ms ms"
  by (simp add: status_steps_def list_all2_refl row_step_refl)

lemma status_steps_trans:
  "status_steps a b \<Longrightarrow> status_steps b c \<Longrightarrow> status_steps a c"
  unfolding status_steps_def
  by (rule list_all2_trans [where ?P1.0 = row_step and ?P2.0 = row_step]) (rule row_step_trans)

lemma status_steps_ids: "status_steps ms ms' \<Longrightarrow> map message_id ms' = map message_id ms"
  unfolding status_steps_def
  by (induction rule: list_all2_induct) (auto simp: row_step_def)

lemma sendBulkMessages_steps:
  assumes "distinct (map message_id (messages w))"
    and "sendBulkMessages env cid w = Inr (res, w')"
  shows "status_steps (messages w) (messages w')"
proof -
  let ?ms = "select_pending cid w"
  from assms(2) have se: "select_error env = None"
    by (auto simp: sendBulkMessages_def split: option.splits)
  obtain w1 s f where sl: "send_loop (attempts env) cid 0 ?ms (w, 0, 0) = (w1, s, f)"
    by (cases "send_loop (attempts env) cid 0 ?ms (w, 0, 0)")
  with assms(2) se have w': "w' = complete_campaign (finish_clock env) cid w1"
    by (simp add: sendBulkMessages_def Let_def)
  from send_loop_messages [OF sl] obtain h where h: "messages w1 = map h (messages w)"
    "\<And>m. message_id (h m) = message_id m"
    "\<And>m. h m = m \<or> message_status (h m) \<noteq> Pending"
    "\<And>m. message_id m \<notin> message_id ` set ?ms \<Longrightarrow> h m = m" by blast
  from assms(1) have inj: "inj_on message_id (set (messages w))" by (simp add: distinct_map)
  have "row_step m (h m)" if m: "m \<in> set (messages w)" for m
  proof (cases "message_status m = Pending")
    case True
    with h(2) [of m] h(3) [of m] show ?thesis
      by (cases "message_status (h m)") (auto simp: row_step_def)
  next
    case False
    have "message_id m \<notin> message_id ` set ?ms"
    proof
      assume "message_id m \<in> message_id ` set ?ms"
      then obtain m' where m': "m' \<in> set ?ms" "message_id m = message_id m'" by auto
      then have "m' \<in> set (messages w)" "message_status m' = Pending"
        by (simp_all add: select_pending_def)
      with inj_onD [OF inj m'(2) m] False show False by simp
    qed
    with h(4) False show ?thesis by (simp add: row_step_def)
  qed
  then have "list_all2 row_step (messages w) (map h (messages w))"
    by (simp add: list_all2_map2 list_all2_same)
  then show ?thesis by (simp add: status_steps_def w' h(1))
qed

lemma perform_steps:
  assumes "distinct (map message_id (messages w))"
  shows "status_steps (messages w) (messages (perform op w))"
proof (cases op)
  case (Dispatch env cid)
  then show ?thesis
    using sendBulkMessages_steps [OF assms] status_steps_refl
    by (auto split: sum.splits)
next
  case (Pause err cid)
  then show ?thesis
    by (cases err) (simp_all add: pause_campaign_def status_steps_refl)
next
  case (Start err env cid)
  have d: "distinct (map message_id (messages (update_campaign_status Running cid w)))"
    using assms by simp
  from Start show ?thesis
    using sendBulkMessages_steps [OF d] status_steps_refl
    by (cases err) (auto simp: start_campaign_def start_update_def split: sum.splits)
next
  case (Tick_start env c)
  have d: "distinct (map message_id (messages (update_campaign_status Running (campaign_id c) w)))"
    using assms by simp
  from Tick_start show ?thesis
    using sendBulkMessages_steps [OF d] status_steps_refl
    by (auto simp: scheduler_start_def Let_def split: sum.splits)
qed

lemma fold_perform_steps:
  assumes "distinct (map message_id (messages w))"
  shows "status_steps (messages w) (messages (fold perform ops w))"
  using assms
proof (induction ops arbitrary: w)
  case Nil
  show ?case by (simp add: status_steps_refl)
next
  case (Cons op ops)
  have 1: "status_steps (messages w) (messages (perform op w))"
    using Cons.prems by (rule perform_steps)
  then have "distinct (map message_id (messages (perform op w)))"
    using Cons.prems by (simp add: status_steps_ids)
  then have "status_steps (messages (perform op w)) (messages (fold perform ops (perform op w)))"
    by (rule Cons.IH)
  with 1 show ?case by (auto intro: status_steps_trans)
qed


text \<open>
  Claim C8 says that nothing moves a message out of sent or failed. The updates of the
  loop are by id alone, on the rows read before the loop began: when two runs of the
  same campaign overlap, both have read the first message as pending; the first run
  marks it sent, the second one, whose send is rejected, marks it failed.
\<close>

theorem overlapping_runs_counterexample:
  "select_pending 1 world1r = [message1, message2] \<and>
   map message_status (messages (fst (attempt ready_attempt 1 message1 (world1r, 0, 0))))
     = [Sent, Pending] \<and>
   map message_status
     (messages (fst (attempt (ready_attempt\<lparr>send_error := Some ''Evaluation failed''\<rparr>) 1 message1
                       (fst (attempt ready_attempt 1 message1 (world1r, 0, 0)), 0, 0))))
     = [Failed, Pending]"
  unfolding world1r_eq
  by (simp add: run_defs campaign1r_def message1_def message2_def)


text \<open>
  For operations that do not overlap the invariant holds. Message ids are unique. After
  any sequence of runs of the loop, pause requests, start requests and scheduler starts,
  each finished before the next begins, the messages table has the same rows in the
  same order: a row that was sent or failed is unchanged in every field, and a row that
  was pending is unchanged, sent or failed.
\<close>

lemma terminal_rows_stay:
  assumes "distinct (map message_id (messages w))"
  shows "length (messages (fold perform ops w)) = length (messages w) \<and>
         (\<forall>i < length (messages w).
            message_id (messages (fold perform ops w) ! i) = message_id (messages w ! i) \<and>
            (message_status (messages w ! i) \<noteq> Pending \<longrightarrow>
               messages (fold perform ops w) ! i = messages w ! i) \<and>
            (message_status (messages w ! i) = Pending \<longrightarrow>
               messages (fold perform ops w) ! i = messages w ! i \<or>
               message_status (messages (fold perform ops w) ! i) = Sent \<or>
               message_status (messages (fold perform ops w) ! i) = Failed))"
proof -
  have "list_all2 row_step (messages w) (messages (fold perform ops w))"
    using fold_perform_steps [OF assms] by (simp add: status_steps_def)
  then show ?thesis
    by (auto simp: list_all2_conv_all_nth row_step_def split: if_splits)
qed

lemma terminal_rows_stay_example:
  "distinct (map message_id (messages world2)) \<and>
   map message_status (messages world2) = [Sent, Sent] \<and>
   length (messages (fold perform
       [Pause None 1, Start None ready_env 1, Dispatch down_env 1, Tick_start down_env campaign_s]
       world2)) = 2 \<and>
   messages (fold perform
       [Pause None 1, Start None ready_env 1, Dispatch down_env 1, Tick_start down_env campaign_s]
       world2) ! 0 = messages world2 ! 0 \<and>
   messages (fold perform
       [Pause None 1, Start None ready_env 1, Dispatch down_env 1, Tick_start down_env campaign_s]
       world2) ! 1 = messages world2 ! 1"
proof -
  let ?ops = "[Pause None 1, Start None ready_env 1, Dispatch down_env 1,
               Tick_start down_env campaign_s]"
  have 1: "distinct (map message_id (messages world2))"
    unfolding world2_eq by simp
  have 2: "map message_status (messages world2) = [Sent, Sent]"
    unfolding world2_eq by simp
  have len: "length (messages world2) = 2"
    unfolding world2_eq by simp
  have st: "message_status (messages world2 ! 0) \<noteq> Pending"
    "message_status (messages world2 ! 1) \<noteq> Pending"
    unfolding world2_eq by simp_all
  note t = terminal_rows_stay [OF 1, of ?ops]
  from t len have a: "length (messages (fold perform ?ops world2)) = 2" by simp
  from t [THEN conjunct2, rule_format, of 0] len st(1)
  have b: "messages (fold perform ?ops world2) ! 0 = messages world2 ! 0" by simp
  from t [THEN conjunct2, rule_format, of 1] len st(2)
  have c: "messages (fold perform ?ops world2) ! 1 = messages world2 ! 1" by simp
  from 1 2 a b c show ?thesis by simp
qed

end
